theory Spec2Isabelle
  imports Main "HOL-Library.Sublist" "HOL-Library.Log_Nat" "HOL-Library.Word"
begin

unbundle bit_operations_syntax

section \<open>Go strings and the string helpers the parsers call\<close>

text \<open>
  A Go string is a sequence of bytes; \<open>string\<close> (a list of 8-bit characters) is used
  for it, and \<open>length\<close> counts bytes as Go's \<open>len\<close> does.
\<close>

text \<open>
  \<open>strings.Split(s, sep)\<close> for a one-byte separator: the pieces between the
  separators, in order; the empty string gives one empty piece.
\<close>

fun Split :: "char \<Rightarrow> string \<Rightarrow> string list" where
  "Split sep [] = [[]]"
| "Split sep (c # cs) =
     (if c = sep then [] # Split sep cs
      else case Split sep cs of
        [] \<Rightarrow> [[c]]
      | piece # pieces \<Rightarrow> (c # piece) # pieces)"

text \<open>
  \<open>strings.Index(s, "=")\<close> for a one-byte pattern: the offset of its first
  occurrence; Go's \<open>-1\<close> is \<open>None\<close>.
\<close>

fun Index :: "string \<Rightarrow> char \<Rightarrow> nat option" where
  "Index [] sep = None"
| "Index (c # cs) sep =
     (if c = sep then Some 0 else map_option Suc (Index cs sep))"

text \<open>
  \<open>strings.TrimSpace\<close> removes leading and trailing white space as Unicode defines
  it, reading the bytes as UTF-8. The white-space code points are U+0009..U+000D,
  U+0020, U+0085, U+00A0, U+1680, U+2000..U+200A, U+2028, U+2029, U+202F, U+205F and
  U+3000; \<open>whiteSpace\<close> lists their UTF-8 encodings. A byte sequence that is not one
  of these encodings decodes to a rune that is not a space.
\<close>

definition whiteSpace :: "string list" where
  "whiteSpace =
     [[CHR 0x09], [CHR 0x0A], [CHR 0x0B], [CHR 0x0C], [CHR 0x0D], [CHR 0x20],
      [CHR 0xC2, CHR 0x85], [CHR 0xC2, CHR 0xA0],
      [CHR 0xE1, CHR 0x9A, CHR 0x80],
      [CHR 0xE2, CHR 0x80, CHR 0x80], [CHR 0xE2, CHR 0x80, CHR 0x81],
      [CHR 0xE2, CHR 0x80, CHR 0x82], [CHR 0xE2, CHR 0x80, CHR 0x83],
      [CHR 0xE2, CHR 0x80, CHR 0x84], [CHR 0xE2, CHR 0x80, CHR 0x85],
      [CHR 0xE2, CHR 0x80, CHR 0x86], [CHR 0xE2, CHR 0x80, CHR 0x87],
      [CHR 0xE2, CHR 0x80, CHR 0x88], [CHR 0xE2, CHR 0x80, CHR 0x89],
      [CHR 0xE2, CHR 0x80, CHR 0x8A],
      [CHR 0xE2, CHR 0x80, CHR 0xA8], [CHR 0xE2, CHR 0x80, CHR 0xA9],
      [CHR 0xE2, CHR 0x80, CHR 0xAF], [CHR 0xE2, CHR 0x81, CHR 0x9F],
      [CHR 0xE3, CHR 0x80, CHR 0x80]]"

text \<open>The width in bytes of the white-space rune a string starts with; 0 when it starts with none.\<close>

definition leadingSpace :: "string \<Rightarrow> nat" where
  "leadingSpace s =
     (case find (\<lambda>w. prefix w s) whiteSpace of None \<Rightarrow> 0 | Some w \<Rightarrow> length w)"

text \<open>The width in bytes of the white-space rune a string ends with; 0 when it ends with none.\<close>

definition trailingSpace :: "string \<Rightarrow> nat" where
  "trailingSpace s =
     (case find (\<lambda>w. suffix w s) whiteSpace of None \<Rightarrow> 0 | Some w \<Rightarrow> length w)"

fun TrimLeftSpace :: "string \<Rightarrow> string" where
  "TrimLeftSpace [] = []"
| "TrimLeftSpace (c # cs) =
     (if leadingSpace (c # cs) = 0 then c # cs
      else TrimLeftSpace (drop (leadingSpace (c # cs) - 1) cs))"

text \<open>The recursion of \<open>TrimRightSpace\<close> runs on the reversed string, last byte first.\<close>

fun TrimRightRev :: "string \<Rightarrow> string" where
  "TrimRightRev [] = []"
| "TrimRightRev (c # cs) =
     (if trailingSpace (rev (c # cs)) = 0 then c # cs
      else TrimRightRev (drop (trailingSpace (rev (c # cs)) - 1) cs))"

definition TrimRightSpace :: "string \<Rightarrow> string" where
  "TrimRightSpace s = rev (TrimRightRev (rev s))"

definition TrimSpace :: "string \<Rightarrow> string" where
  "TrimSpace s = TrimRightSpace (TrimLeftSpace s)"

text \<open>\<open>strings.ReplaceAll(p, " ", "")\<close>: every byte 0x20 is removed, nothing else.\<close>

definition ReplaceAll_space :: "string \<Rightarrow> string" where
  "ReplaceAll_space p = filter (\<lambda>c. c \<noteq> CHR '' '') p"

section \<open>The DKIM tag lexer (dkim\_parser.go)\<close>

text \<open>
  Each place where the source builds an error is a constructor. \<open>FailedToParse\<close> is
  the wrapping \<open>fmt.Errorf("failed to parse DKIM record: %w", err)\<close> of a lexer error.
  The spec's kinds: \<open>MalformedTag\<close> (invalid tag format, missing '='),
  \<open>EmptyTagName\<close>, \<open>UnsupportedVersion\<close> (incompatible DKIM version),
  \<open>MissingPublicKey\<close>, \<open>InvalidBase64\<close>, \<open>InvalidKeyEncoding\<close> (invalid RSA public
  key), \<open>KeyAlgorithmMismatch\<close> (public key is not an RSA key), \<open>KeyTooShort\<close> (with
  the bits the message prints), \<open>InvalidKeySize\<close> (with the byte count the message
  prints) and \<open>UnsupportedKeyType\<close> (with the key type the message prints).
\<close>

datatype dkim_error =
    MalformedTag string
  | EmptyTagName
  | FailedToParse dkim_error
  | UnsupportedVersion
  | MissingPublicKey
  | InvalidBase64
  | InvalidKeyEncoding
  | KeyAlgorithmMismatch
  | KeyTooShort int
  | InvalidKeySize nat
  | UnsupportedKeyType string

type_synonym params = "string \<rightharpoonup> string"

text \<open>
  The loop of \<open>parseDKIMParams\<close> over the pairs, the map built so far passed along.
  It returns at the first pair that is malformed.
\<close>

fun parseDKIMParams_loop :: "params \<Rightarrow> string list \<Rightarrow> dkim_error + params" where
  "parseDKIMParams_loop params [] = Inr params"
| "parseDKIMParams_loop params (pair0 # pairs) =
     (let pair = TrimSpace pair0 in
      if pair = [] then parseDKIMParams_loop params pairs
      else case Index pair (CHR ''='') of
        None \<Rightarrow> Inl (MalformedTag pair)
      | Some idx \<Rightarrow>
          (let key = TrimSpace (take idx pair);
               val = TrimSpace (drop (idx + 1) pair)
           in if key = [] then Inl EmptyTagName
              else parseDKIMParams_loop (params(key \<mapsto> val)) pairs))"

definition parseDKIMParams :: "string \<Rightarrow> dkim_error + params" where
  "parseDKIMParams s = parseDKIMParams_loop Map.empty (Split (CHR '';'') s)"

text \<open>\<open>parseTagList\<close>: the pieces between colons, each trimmed, the empty ones dropped.\<close>

definition parseTagList :: "string \<Rightarrow> string list" where
  "parseTagList s = filter (\<lambda>p. p \<noteq> []) (map TrimSpace (Split (CHR '':'') s))"

section \<open>Standard base64 decoding (Go's encoding/base64, StdEncoding)\<close>

text \<open>
  \<open>ParseDKIM\<close> calls \<open>base64.StdEncoding.DecodeString\<close> of Go's standard library.
  The model follows that decoder: the alphabet \<open>encodeStd\<close>, the padding character
  \<open>=\<close>, line feeds and carriage returns ignored wherever they stand, no strict
  mode (the unused low bits of a padded quantum are not checked). The offset that
  \<open>CorruptInputError\<close> carries is left out: \<open>ParseDKIM\<close> only tests the error
  against nil.
\<close>

type_synonym byte = "8 word"

datatype base64_error = CorruptInputError

definition encodeStd :: string where
  "encodeStd = ''ABCDEFGHIJKLMNOPQRSTUVWXYZabcdefghijklmnopqrstuvwxyz0123456789+/''"

text \<open>The decoder's table: the position of a byte in the alphabet, 0xFF for any other byte.\<close>

definition decodeMap :: "char \<Rightarrow> byte" where
  "decodeMap c = (case Index encodeStd c of None \<Rightarrow> 0xFF | Some i \<Rightarrow> of_nat i)"

text \<open>
  The last step of \<open>decodeQuantum\<close>: the 6-bit values of \<open>dbuf\<close> (zero where the
  quantum was cut short by padding) are packed into 24 bits, of which the first
  \<open>dlen - 1\<close> bytes are written.
\<close>

definition quantumBytes :: "byte list \<Rightarrow> nat \<Rightarrow> byte list" where
  "quantumBytes dbuf dlen =
     (let d = dbuf @ replicate (4 - length dbuf) 0;
          val = (push_bit 18 (ucast (d ! 0)) OR push_bit 12 (ucast (d ! 1)) OR
                 push_bit 6 (ucast (d ! 2)) OR ucast (d ! 3) :: 64 word)
      in take (dlen - 1) [ucast (drop_bit 16 val), ucast (drop_bit 8 val), ucast val])"

fun skipNewlines :: "string \<Rightarrow> string" where
  "skipNewlines [] = []"
| "skipNewlines (c # cs) =
     (if c = CHR 0x0A \<or> c = CHR 0x0D then skipNewlines cs else c # cs)"

text \<open>
  \<open>decodeQuantum\<close> reads up to four alphabet bytes from the input. \<open>dbuf\<close> holds the
  values read so far (Go's loop counter \<open>j\<close> is its length). The result is the bytes
  decoded and the input that is left.
\<close>

fun decodeQuantum :: "byte list \<Rightarrow> string \<Rightarrow> base64_error + (byte list \<times> string)" where
  "decodeQuantum dbuf [] = (if dbuf = [] then Inr ([], []) else Inl CorruptInputError)"
| "decodeQuantum dbuf (c # src) =
     (if decodeMap c \<noteq> 0xFF then
        (if length dbuf = 3 then Inr (quantumBytes (dbuf @ [decodeMap c]) 4, src)
         else decodeQuantum (dbuf @ [decodeMap c]) src)
      else if c = CHR 0x0A \<or> c = CHR 0x0D then decodeQuantum dbuf src
      else if c \<noteq> CHR ''='' then Inl CorruptInputError
      else if length dbuf < 2 then Inl CorruptInputError
      else if length dbuf = 2 then
        (case skipNewlines src of
           [] \<Rightarrow> Inl CorruptInputError
         | c2 # src2 \<Rightarrow>
             if c2 \<noteq> CHR ''='' then Inl CorruptInputError
             else if skipNewlines src2 \<noteq> [] then Inl CorruptInputError
             else Inr (quantumBytes dbuf 2, []))
      else if skipNewlines src \<noteq> [] then Inl CorruptInputError
      else Inr (quantumBytes dbuf 3, []))"

lemma decodeQuantum_rest:
  "decodeQuantum dbuf src = Inr (out, rest) \<Longrightarrow> src \<noteq> [] \<Longrightarrow> length rest < length src"
proof (induction src arbitrary: dbuf)
  case Nil
  then show ?case by simp
next
  case (Cons c src)
  have step: "length rest < Suc (length src)"
    if "decodeQuantum d src = Inr (out, rest)" for d
  proof (cases "src = []")
    case True
    with that show ?thesis by (simp split: if_splits)
  next
    case False
    with Cons.IH [OF that] show ?thesis by simp
  qed
  from Cons.prems(1) show ?case
    by (auto split: if_splits list.splits dest: step)
qed

function Decode :: "string \<Rightarrow> base64_error + byte list" where
  "Decode src =
     (if src = [] then Inr []
      else case decodeQuantum [] src of
        Inl e \<Rightarrow> Inl e
      | Inr (out, rest) \<Rightarrow>
          (case Decode rest of Inl e \<Rightarrow> Inl e | Inr more \<Rightarrow> Inr (out @ more)))"
  by pat_completeness auto
termination
  by (relation "measure length") (auto dest: decodeQuantum_rest)

definition DecodeString :: "string \<Rightarrow> base64_error + byte list" where
  "DecodeString s = Decode s"

section \<open>Public keys (Go's crypto/rsa and crypto/x509)\<close>

text \<open>
  \<open>rsa.PublicKey\<close> with its modulus \<open>N\<close> and exponent \<open>E\<close>. \<open>Size\<close> is the
  method of that name: the bytes needed to hold the modulus,
  \<open>(N.BitLen() + 7) / 8\<close>.
\<close>

record rsa_PublicKey =
  N :: int
  E :: int

definition Size :: "rsa_PublicKey \<Rightarrow> int" where
  "Size pub = (bitlen \<bar>N pub\<bar> + 7) div 8"

text \<open>
  What \<open>x509.ParsePKIXPublicKey\<close> can return: an RSA key, or a key of another
  algorithm (DSA, ECDSA, Ed25519, X25519), on which the type assertion
  \<open>pub.(*rsa.PublicKey)\<close> fails.
\<close>

datatype crypto_PublicKey = RSAPublicKey rsa_PublicKey | OtherPublicKey

text \<open>
  The two ASN.1 decoders are outside the repository; \<open>ParseDKIM\<close> takes them as a
  parameter. \<open>None\<close> is a returned error.
\<close>

record x509 =
  ParsePKIXPublicKey :: "byte list \<Rightarrow> crypto_PublicKey option"
  ParsePKCS1PublicKey :: "byte list \<Rightarrow> rsa_PublicKey option"

text \<open>\<open>ed25519.PublicKeySize\<close>.\<close>

definition PublicKeySize :: nat where
  "PublicKeySize = 32"

section \<open>ParseDKIM (dkim\_parser.go)\<close>

record DKIMRecord =
  KeyType :: string
  PublicKey :: string
  HashAlgorithms :: "string list"
  Services :: "string list"
  Flags :: "string list"
  Notes :: string
  IsRevoked :: bool

text \<open>
  The public-key block of \<open>ParseDKIM\<close> (the \<open>if p == ""\<close> statement with both of
  its branches), on the value \<open>p\<close> of the p tag and the record built so far.
\<close>

definition ParseDKIM_key ::
  "x509 \<Rightarrow> params \<Rightarrow> string \<Rightarrow> DKIMRecord \<Rightarrow> dkim_error + DKIMRecord" where
  "ParseDKIM_key X params p0 rec0 =
     (if p0 = [] then Inr (rec0\<lparr>IsRevoked := True, PublicKey := []\<rparr>)
      else
        let p = ReplaceAll_space p0;
            rec1 = rec0\<lparr>PublicKey := p\<rparr>
        in case DecodeString p of
          Inl err \<Rightarrow> Inl InvalidBase64
        | Inr b \<Rightarrow>
            let rec2 = (case params ''k'' of Some k \<Rightarrow> rec1\<lparr>KeyType := k\<rparr> | None \<Rightarrow> rec1)
            in if KeyType rec2 = ''rsa'' \<or> KeyType rec2 = [] then
                 (let rec3 = rec2\<lparr>KeyType := ''rsa''\<rparr> in
                  case (case ParsePKIXPublicKey X b of
                          Some pub \<Rightarrow> Some pub
                        | None \<Rightarrow> map_option RSAPublicKey (ParsePKCS1PublicKey X b)) of
                    None \<Rightarrow> Inl InvalidKeyEncoding
                  | Some OtherPublicKey \<Rightarrow> Inl KeyAlgorithmMismatch
                  | Some (RSAPublicKey rsaPub) \<Rightarrow>
                      (let keyBits = Size rsaPub * 8 in
                       if keyBits < 1024 then Inl (KeyTooShort keyBits) else Inr rec3))
               else if KeyType rec2 = ''ed25519'' then
                 (if length b \<noteq> PublicKeySize then Inl (InvalidKeySize (length b))
                  else Inr rec2)
               else Inl (UnsupportedKeyType (KeyType rec2)))"

text \<open>The h, s, t and n tags, read after the key block.\<close>

definition ParseDKIM_tags :: "params \<Rightarrow> DKIMRecord \<Rightarrow> DKIMRecord" where
  "ParseDKIM_tags params rec0 =
     (let rec1 = (case params ''h'' of Some h \<Rightarrow> rec0\<lparr>HashAlgorithms := parseTagList h\<rparr> | None \<Rightarrow> rec0);
          rec2 = (case params ''s'' of Some s \<Rightarrow> rec1\<lparr>Services := parseTagList s\<rparr> | None \<Rightarrow> rec1);
          rec3 = (case params ''t'' of Some t \<Rightarrow> rec2\<lparr>Flags := parseTagList t\<rparr> | None \<Rightarrow> rec2)
      in (case params ''n'' of Some n \<Rightarrow> rec3\<lparr>Notes := n\<rparr> | None \<Rightarrow> rec3))"

text \<open>The record \<open>ParseDKIM\<close> starts from: key type rsa, every other field Go's zero value.\<close>

definition initialRecord :: DKIMRecord where
  "initialRecord =
     \<lparr>KeyType = ''rsa'', PublicKey = [], HashAlgorithms = [], Services = [],
      Flags = [], Notes = [], IsRevoked = False\<rparr>"

text \<open>\<open>ParseDKIM\<close> on the lexed tags: the version check, the p tag, the key, the other tags.\<close>

definition ParseDKIM_params :: "x509 \<Rightarrow> params \<Rightarrow> dkim_error + DKIMRecord" where
  "ParseDKIM_params X params =
     (if (case params ''v'' of Some v \<Rightarrow> v \<noteq> ''DKIM1'' | None \<Rightarrow> False)
      then Inl UnsupportedVersion
      else case params ''p'' of
        None \<Rightarrow> Inl MissingPublicKey
      | Some p \<Rightarrow>
          (case ParseDKIM_key X params p initialRecord of
             Inl err \<Rightarrow> Inl err
           | Inr rec \<Rightarrow> Inr (ParseDKIM_tags params rec)))"

definition ParseDKIM :: "x509 \<Rightarrow> string \<Rightarrow> dkim_error + DKIMRecord" where
  "ParseDKIM X s =
     (case parseDKIMParams s of
        Inl err \<Rightarrow> Inl (FailedToParse err)
      | Inr params \<Rightarrow> ParseDKIM_params X params)"

section \<open>The SPF mechanism classifier (the SPF data source, src/unnamed/part\_000)\<close>

text \<open>
  A mechanism of the external SPF parser (\<open>spf.Mechanism\<close>, an interface): the text
  its \<open>String\<close> method returns and its dynamic type with the fields
  \<open>parseMechanism\<close> reads (\<open>DomainSpec\<close>, or the text of \<open>Net.String()\<close>).
  \<open>MechanismOther\<close> is any type the type switch does not list.
\<close>

datatype MechanismType =
    MechanismAll
  | MechanismInclude string
  | MechanismA string
  | MechanismMX string
  | MechanismIp4 string
  | MechanismIp6 string
  | MechanismExists string
  | MechanismPTR string
  | MechanismOther

record Mechanism =
  String :: string
  dyn :: MechanismType

definition formatMechanismA :: "string \<Rightarrow> string" where
  "formatMechanismA DomainSpec = (if DomainSpec = [] then [] else DomainSpec)"

definition formatMechanismMX :: "string \<Rightarrow> string" where
  "formatMechanismMX DomainSpec = (if DomainSpec = [] then [] else DomainSpec)"

text \<open>\<open>parseMechanism\<close> returns (qualifier, mechType, value).\<close>

definition parseMechanism :: "Mechanism \<Rightarrow> string \<times> string \<times> string" where
  "parseMechanism m =
     (let str0 = String m;
          (qualifier, str) =
            (case str0 of
               [] \<Rightarrow> (''+'', str0)
             | c # rest \<Rightarrow>
                 if c = CHR ''+'' then (''+'', rest)
                 else if c = CHR ''-'' then (''-'', rest)
                 else if c = CHR ''~'' then (''~'', rest)
                 else if c = CHR ''?'' then (''?'', rest)
                 else (''+'', str0))
      in case dyn m of
           MechanismAll \<Rightarrow> (qualifier, ''all'', [])
         | MechanismInclude DomainSpec \<Rightarrow> (qualifier, ''include'', DomainSpec)
         | MechanismA DomainSpec \<Rightarrow> (qualifier, ''a'', formatMechanismA DomainSpec)
         | MechanismMX DomainSpec \<Rightarrow> (qualifier, ''mx'', formatMechanismMX DomainSpec)
         | MechanismIp4 net \<Rightarrow> (qualifier, ''ip4'', net)
         | MechanismIp6 net \<Rightarrow> (qualifier, ''ip6'', net)
         | MechanismExists DomainSpec \<Rightarrow> (qualifier, ''exists'', DomainSpec)
         | MechanismPTR DomainSpec \<Rightarrow> (qualifier, ''ptr'', DomainSpec)
         | MechanismOther \<Rightarrow> (qualifier, ''unknown'', str))"

text \<open>
  What \<open>Read\<close> computes from a parsed record: the classified mechanisms, the
  redirect (null when the parsed one is empty) and the lookup count. The count is a
  Go \<open>int\<close> that goes up by one per mechanism, so it cannot overflow on a list that
  fits in memory; it is an \<open>int\<close> here.
\<close>

record SPFDataSourceModel =
  Mechanisms :: "(string \<times> string \<times> string) list"
  Redirect :: "string option"
  DNSLookupCount :: int

text \<open>The loop of \<open>Read\<close> over the parsed mechanisms, with the counter and the values appended so far.\<close>

fun Read_loop ::
  "int \<Rightarrow> (string \<times> string \<times> string) list \<Rightarrow> Mechanism list
    \<Rightarrow> int \<times> (string \<times> string \<times> string) list" where
  "Read_loop dnsLookupCount mechanismValues [] = (dnsLookupCount, mechanismValues)"
| "Read_loop dnsLookupCount mechanismValues (m # ms) =
     (let (qualifier, mechType, val) = parseMechanism m;
          dnsLookupCount' =
            (if mechType \<in> {''include'', ''a'', ''mx'', ''ptr'', ''exists''}
             then dnsLookupCount + 1 else dnsLookupCount)
      in Read_loop dnsLookupCount' (mechanismValues @ [(qualifier, mechType, val)]) ms)"

text \<open>\<open>Read\<close> after a successful \<open>spf.ParseSPF\<close>, on the parsed mechanisms and redirect.\<close>

definition Read :: "Mechanism list \<Rightarrow> string \<Rightarrow> SPFDataSourceModel" where
  "Read parsedMechanisms parsedRedirect =
     (let (dnsLookupCount, mechanismValues) = Read_loop 0 [] parsedMechanisms;
          dnsLookupCount' = (if parsedRedirect \<noteq> [] then dnsLookupCount + 1 else dnsLookupCount)
      in \<lparr>Mechanisms = mechanismValues,
          Redirect = (if parsedRedirect \<noteq> [] then Some parsedRedirect else None),
          DNSLookupCount = dnsLookupCount'\<rparr>)"

section \<open>Notions used to state the properties\<close>

text \<open>The classified type of a mechanism: the second component of what \<open>parseMechanism\<close> returns.\<close>

definition mechType :: "Mechanism \<Rightarrow> string" where
  "mechType m = fst (snd (parseMechanism m))"

text \<open>A text without its first byte when that byte is one of the four qualifiers.\<close>

definition stripQualifier :: "string \<Rightarrow> string" where
  "stripQualifier s =
     (case s of [] \<Rightarrow> [] | c # rest \<Rightarrow> if c \<in> set ''+-~?'' then rest else s)"

text \<open>
  The lexer in the spec's words: the segments of a record are the pieces between
  semicolons, trimmed, the empty ones skipped; a segment is split on its first \<open>=\<close>
  into a key and a value, each trimmed.
\<close>

definition segments :: "string \<Rightarrow> string list" where
  "segments s = filter (\<lambda>g. g \<noteq> []) (map TrimSpace (Split (CHR '';'') s))"

definition tagKey :: "string \<Rightarrow> string" where
  "tagKey g = TrimSpace (takeWhile (\<lambda>c. c \<noteq> CHR ''='') g)"

definition tagValue :: "string \<Rightarrow> string" where
  "tagValue g = TrimSpace (drop (Suc (length (takeWhile (\<lambda>c. c \<noteq> CHR ''='') g))) g)"

definition noEquals :: "string \<Rightarrow> bool" where
  "noEquals g = (CHR ''='' \<notin> set g)"

text \<open>A segment the lexer rejects: it has no \<open>=\<close>, or its key is empty.\<close>

definition badSegment :: "string \<Rightarrow> bool" where
  "badSegment g = (noEquals g \<or> tagKey g = [])"

definition segmentError :: "string \<Rightarrow> dkim_error" where
  "segmentError g = (if noEquals g then MalformedTag g else EmptyTagName)"

text \<open>The map of a list of segments in which a later segment overwrites an earlier one with the same key.\<close>

definition lastWins :: "string list \<Rightarrow> params" where
  "lastWins gs = map_of (rev (map (\<lambda>g. (tagKey g, tagValue g)) gs))"

text \<open>The version check of \<open>ParseDKIM\<close> passes: no v tag, or the v tag is DKIM1.\<close>

definition versionAccepted :: "params \<Rightarrow> bool" where
  "versionAccepted params = (params ''v'' = None \<or> params ''v'' = Some ''DKIM1'')"

text \<open>
  The key the rsa branch of \<open>ParseDKIM\<close> goes on with: the result of the
  public-key-info decoder, or else, when that one fails, the result of the raw RSA
  decoder.
\<close>

definition rsaDecoded :: "x509 \<Rightarrow> byte list \<Rightarrow> crypto_PublicKey option" where
  "rsaDecoded X b =
     (case ParsePKIXPublicKey X b of
        Some pub \<Rightarrow> Some pub
      | None \<Rightarrow> map_option RSAPublicKey (ParsePKCS1PublicKey X b))"

subsection \<open>Example inputs\<close>

text \<open>The mechanisms of \<open>v=spf1 +a include:_spf.google.com ip4:192.0.2.0/24 -all\<close>.\<close>

definition exampleMechanisms :: "Mechanism list" where
  "exampleMechanisms =
     [\<lparr>String = ''+a'', dyn = MechanismA []\<rparr>,
      \<lparr>String = ''include:_spf.google.com'', dyn = MechanismInclude ''_spf.google.com''\<rparr>,
      \<lparr>String = ''ip4:192.0.2.0/24'', dyn = MechanismIp4 ''192.0.2.0/24''\<rparr>,
      \<lparr>String = ''-all'', dyn = MechanismAll\<rparr>]"

text \<open>
  The DER encoding of the PKCS\#1 public key with modulus \<open>2^1016 + 1\<close> (1017 bits)
  and exponent 65537: a sequence of two integers.
\<close>

definition der1017 :: "byte list" where
  "der1017 =
     [0x30, 0x81, 0x88, 0x02, 0x81, 0x80, 0x01] @ replicate 126 0 @
     [0x01, 0x02, 0x03, 0x01, 0x00, 0x01]"

text \<open>An RSA public key whose modulus \<open>2^(bits - 1) + 1\<close> has \<open>bits\<close> bits, with exponent 65537.\<close>

definition rsaKey :: "nat \<Rightarrow> rsa_PublicKey" where
  "rsaKey bits = \<lparr>N = 2 ^ (bits - 1) + 1, E = 65537\<rparr>"

text \<open>
  A stand-in for the two ASN.1 decoders, for the examples only. It knows five byte
  strings: \<open>[0,0,0]\<close> is a public-key-info structure of a key that is not RSA,
  \<open>[0,0,1]\<close> one of an RSA key of 1024 bits, \<open>[0,0,2]\<close> a raw RSA key of 2048
  bits, \<open>[0,0,3]\<close> a raw RSA key of 512 bits, \<open>der1017\<close> the raw RSA key it
  encodes. Everything else is rejected by both decoders.
\<close>

definition exampleX509 :: x509 where
  "exampleX509 =
     \<lparr>ParsePKIXPublicKey = (\<lambda>b.
        if b = [0, 0, 0] then Some OtherPublicKey
        else if b = [0, 0, 1] then Some (RSAPublicKey (rsaKey 1024))
        else None),
      ParsePKCS1PublicKey = (\<lambda>b.
        if b = [0, 0, 2] then Some (rsaKey 2048)
        else if b = [0, 0, 3] then Some (rsaKey 512)
        else if b = der1017 then Some (rsaKey 1017)
        else None)\<rparr>"

text \<open>
  The base64 text of \<open>der1017\<close>, and the DKIM record that publishes it as an RSA key.
\<close>

definition rsa1017Text :: string where
  "rsa1017Text = ''MIGIAoGAAQAAAAAAAAAAAAAAAAAAAAAAAAAAAAAAAAAAAAAAAAAAAAAAAAAAAAAAAAAAAAAAAAAAAAAAAAAAAAAAAAAAAAAAAAAAAAAAAAAAAAAAAAAAAAAAAAAAAAAAAAAAAAAAAAAAAAAAAAAAAAAAAAAAAAAAAAAAAAAAAAAAAAAAAAECAwEAAQ==''"

definition rsa1017Record :: string where
  "rsa1017Record = ''v=DKIM1; k=rsa; p='' @ rsa1017Text"

text \<open>
  The base64 text of 32 zero bytes (an Ed25519 key by its size), the record that
  publishes it, and the same text with a tab, or a line feed, after its first four
  characters.
\<close>

definition ed25519Text :: string where
  "ed25519Text = ''AAAAAAAAAAAAAAAAAAAAAAAAAAAAAAAAAAAAAAAAAAA=''"

definition ed25519Record :: string where
  "ed25519Record = ''v=DKIM1; k=ed25519; p='' @ ed25519Text"

definition tabbedText :: string where
  "tabbedText = ''AAAA'' @ [CHR 0x09] @ ''AAAAAAAAAAAAAAAAAAAAAAAAAAAAAAAAAAAAAAA=''"

definition tabbedRecord :: string where
  "tabbedRecord = ''v=DKIM1; k=ed25519; p='' @ tabbedText"

definition newlineText :: string where
  "newlineText = ''AAAA'' @ [CHR 0x0A] @ ''AAAAAAAAAAAAAAAAAAAAAAAAAAAAAAAAAAAAAAA=''"

definition newlineRecord :: string where
  "newlineRecord = ''v=DKIM1; k=ed25519; p='' @ newlineText"

section \<open>The SPF classifier: lookup count and totality\<close>

lemma Read_loop_count:
  "fst (Read_loop n acc ms) =
     n + int (length (filter (\<lambda>m. mechType m \<in> {''include'', ''a'', ''mx'', ''ptr'', ''exists''}) ms))"
  by (induction ms arbitrary: n acc) (auto simp: mechType_def split: prod.splits)

lemma Read_loop_values: "snd (Read_loop n acc ms) = acc @ map parseMechanism ms"
  by (induction ms arbitrary: n acc) (auto split: prod.splits)

lemma Read_DNSLookupCount:
  "DNSLookupCount (Read ms r) =
     int (length (filter (\<lambda>m. mechType m \<in> {''include'', ''a'', ''mx'', ''ptr'', ''exists''}) ms))
       + (if r \<noteq> [] then 1 else 0)"
  using Read_loop_count [of 0 "[]" ms]
  by (auto simp: Read_def split: prod.splits)

lemma Read_Mechanisms: "Mechanisms (Read ms r) = map parseMechanism ms"
  using Read_loop_values [of 0 "[]" ms]
  by (auto simp: Read_def split: prod.splits)

text \<open>
  C1. The lookup count that \<open>Read\<close> stores is the number of mechanisms whose
  classified type is include, a, mx, ptr or exists, plus one when the parsed redirect
  is present (not the empty string). Mechanisms of type all, ip4 and ip6 do not
  count: dropping them from the list leaves the count as it is. For a fixed list,
  the count with a redirect is one more than the count without.
\<close>

theorem spf_dns_lookup_count:
  "DNSLookupCount (Read ms r) =
     int (length (filter (\<lambda>m. mechType m \<in> {''include'', ''a'', ''mx'', ''ptr'', ''exists''}) ms))
       + (if r \<noteq> [] then 1 else 0)
   \<and> DNSLookupCount (Read (filter (\<lambda>m. mechType m \<notin> {''all'', ''ip4'', ''ip6''}) ms) r)
       = DNSLookupCount (Read ms r)
   \<and> (r \<noteq> [] \<longrightarrow> DNSLookupCount (Read ms r) = DNSLookupCount (Read ms []) + 1)"
proof -
  have "filter (\<lambda>m. mechType m \<in> {''include'', ''a'', ''mx'', ''ptr'', ''exists''})
          (filter (\<lambda>m. mechType m \<notin> {''all'', ''ip4'', ''ip6''}) ms)
        = filter (\<lambda>m. mechType m \<in> {''include'', ''a'', ''mx'', ''ptr'', ''exists''}) ms"
    by (induction ms) auto
  then show ?thesis
    by (simp add: Read_DNSLookupCount)
qed

theorem spf_dns_lookup_count_witness:
  "DNSLookupCount (Read exampleMechanisms []) = 2
   \<and> DNSLookupCount (Read exampleMechanisms ''example.com'') = 3"
  using spf_dns_lookup_count [of exampleMechanisms "''example.com''"]
        spf_dns_lookup_count [of exampleMechanisms "[]"]
  by (simp add: exampleMechanisms_def mechType_def parseMechanism_def formatMechanismA_def)

lemma parseMechanism_qualifier: "fst (parseMechanism m) \<in> {''+'', ''-'', ''~'', ''?''}"
  by (auto simp: parseMechanism_def Let_def split: list.splits MechanismType.splits)

lemma parseMechanism_type:
  "mechType m \<in> {''all'', ''include'', ''a'', ''mx'', ''ip4'', ''ip6'', ''exists'', ''ptr'', ''unknown''}"
  by (auto simp: mechType_def parseMechanism_def Let_def split: list.splits MechanismType.splits)

lemma parseMechanism_other:
  "dyn m = MechanismOther \<Longrightarrow>
     mechType m = ''unknown'' \<and> snd (snd (parseMechanism m)) = stripQualifier (String m)"
  by (auto simp: mechType_def parseMechanism_def stripQualifier_def Let_def split: list.splits)

text \<open>
  C6, as the code has it. \<open>Read\<close> classifies every mechanism, in order: the stored
  list is the image of the parsed list under \<open>parseMechanism\<close>, which has no error
  result. The qualifier is one of the four, the type one of the nine. A mechanism of
  a type the switch does not list gets the type unknown and, as value, its text
  without the leading qualifier; the value is the verbatim text only when the text
  does not start with a qualifier.
\<close>

theorem spf_classifier_total:
  "Mechanisms (Read ms r) = map parseMechanism ms
   \<and> length (Mechanisms (Read ms r)) = length ms
   \<and> (\<forall>i < length ms. Mechanisms (Read ms r) ! i = parseMechanism (ms ! i))
   \<and> (\<forall>m. fst (parseMechanism m) \<in> {''+'', ''-'', ''~'', ''?''}
          \<and> mechType m \<in> {''all'', ''include'', ''a'', ''mx'', ''ip4'', ''ip6'', ''exists'',
                            ''ptr'', ''unknown''})
   \<and> (\<forall>m. dyn m = MechanismOther \<longrightarrow>
          mechType m = ''unknown'' \<and> snd (snd (parseMechanism m)) = stripQualifier (String m))
   \<and> (\<forall>m. dyn m = MechanismOther \<and> stripQualifier (String m) = String m \<longrightarrow>
          snd (snd (parseMechanism m)) = String m)"
  using parseMechanism_qualifier parseMechanism_type parseMechanism_other
  by (simp add: Read_Mechanisms)

theorem spf_classifier_total_witness:
  "Mechanisms (Read [\<lparr>String = ''-all'', dyn = MechanismAll\<rparr>,
                     \<lparr>String = ''x-future:arg'', dyn = MechanismOther\<rparr>,
                     \<lparr>String = ''~x-future:arg'', dyn = MechanismOther\<rparr>] [])
     = [(''-'', ''all'', []), (''+'', ''unknown'', ''x-future:arg''),
        (''~'', ''unknown'', ''x-future:arg'')]"
  using spf_classifier_total
          [of "[\<lparr>String = ''-all'', dyn = MechanismAll\<rparr>,
                \<lparr>String = ''x-future:arg'', dyn = MechanismOther\<rparr>,
                \<lparr>String = ''~x-future:arg'', dyn = MechanismOther\<rparr>]" "[]"]
  by (simp add: parseMechanism_def)

text \<open>
  The claim as the spec states it fails: the value of an unrecognised mechanism with
  the text \<open>~x-future:arg\<close> is \<open>x-future:arg\<close>, not the verbatim text.
\<close>

theorem spf_unknown_value_counterexample:
  "mechType \<lparr>String = ''~x-future:arg'', dyn = MechanismOther\<rparr> = ''unknown''
   \<and> snd (snd (parseMechanism \<lparr>String = ''~x-future:arg'', dyn = MechanismOther\<rparr>))
       = ''x-future:arg''
   \<and> snd (snd (parseMechanism \<lparr>String = ''~x-future:arg'', dyn = MechanismOther\<rparr>))
       \<noteq> String \<lparr>String = ''~x-future:arg'', dyn = MechanismOther\<rparr>"
  by (simp add: mechType_def parseMechanism_def)

section \<open>The tag lexer\<close>

lemma Index_None: "Index g c = None \<longleftrightarrow> c \<notin> set g"
  by (induction g) auto

lemma Index_Some:
  "Index g c = Some i \<Longrightarrow> i = length (takeWhile (\<lambda>x. x \<noteq> c) g) \<and> c \<in> set g"
  by (induction g arbitrary: i) (auto split: if_splits)

lemma Index_take: "Index g c = Some i \<Longrightarrow> take i g = takeWhile (\<lambda>x. x \<noteq> c) g"
  by (induction g arbitrary: i) (auto split: if_splits)

lemma parseDKIMParams_loop_spec:
  "parseDKIMParams_loop m pairs =
     (case find badSegment (filter (\<lambda>g. g \<noteq> []) (map TrimSpace pairs)) of
        Some g \<Rightarrow> Inl (segmentError g)
      | None \<Rightarrow> Inr (m ++ lastWins (filter (\<lambda>g. g \<noteq> []) (map TrimSpace pairs))))"
proof (induction pairs arbitrary: m)
  case Nil
  then show ?case by (simp add: lastWins_def)
next
  case (Cons pair0 pairs)
  let ?g = "TrimSpace pair0"
  show ?case
  proof (cases "?g = []")
    case True
    then show ?thesis by (simp add: Cons.IH cong: option.case_cong)
  next
    case nonempty: False
    show ?thesis
    proof (cases "Index ?g (CHR ''='')")
      case None
      then have "noEquals ?g" by (simp add: Index_None noEquals_def)
      with nonempty None show ?thesis
        by (simp add: badSegment_def segmentError_def)
    next
      case (Some idx)
      then have eq: "\<not> noEquals ?g"
        and idx: "idx = length (takeWhile (\<lambda>x. x \<noteq> CHR ''='') ?g)"
        and tk: "take idx ?g = takeWhile (\<lambda>x. x \<noteq> CHR ''='') ?g"
        using Index_Some [OF Some] Index_take [OF Some] by (auto simp: noEquals_def)
      have key: "TrimSpace (take idx ?g) = tagKey ?g"
        by (simp add: tagKey_def tk)
      have val: "TrimSpace (drop (idx + 1) ?g) = tagValue ?g"
        by (simp add: tagValue_def idx)
      show ?thesis
      proof (cases "tagKey ?g = []")
        case True
        with nonempty Some eq key show ?thesis
          by (simp add: badSegment_def segmentError_def Let_def)
      next
        case False
        have notbad: "\<not> badSegment ?g"
          using eq False by (simp add: badSegment_def)
        have merge: "m(tagKey ?g \<mapsto> tagValue ?g) ++ lastWins gs = m ++ lastWins (?g # gs)" for gs
          by (simp add: lastWins_def map_add_def fun_eq_iff split: option.splits)
        have "parseDKIMParams_loop m (pair0 # pairs) =
                parseDKIMParams_loop (m(tagKey ?g \<mapsto> tagValue ?g)) pairs"
          using nonempty Some False key val by (simp add: Let_def)
        also have "\<dots> =
          (case find badSegment (filter (\<lambda>g. g \<noteq> []) (map TrimSpace pairs)) of
             Some g \<Rightarrow> Inl (segmentError g)
           | None \<Rightarrow> Inr (m(tagKey ?g \<mapsto> tagValue ?g)
                            ++ lastWins (filter (\<lambda>g. g \<noteq> []) (map TrimSpace pairs))))"
          by (rule Cons.IH)
        also have "\<dots> =
          (case find badSegment (filter (\<lambda>g. g \<noteq> []) (map TrimSpace (pair0 # pairs))) of
             Some g \<Rightarrow> Inl (segmentError g)
           | None \<Rightarrow> Inr (m ++ lastWins (filter (\<lambda>g. g \<noteq> []) (map TrimSpace (pair0 # pairs)))))"
          using nonempty notbad by (simp add: merge cong: option.case_cong)
        finally show ?thesis .
      qed
    qed
  qed
qed

lemma parseDKIMParams_spec:
  "parseDKIMParams s =
     (case find badSegment (segments s) of
        Some g \<Rightarrow> Inl (segmentError g)
      | None \<Rightarrow> Inr (lastWins (segments s)))"
  by (simp add: parseDKIMParams_def parseDKIMParams_loop_spec segments_def
           cong: option.case_cong)

lemma parseDKIMParams_ok:
  "find badSegment (segments s) = None \<Longrightarrow> parseDKIMParams s = Inr (lastWins (segments s))"
  by (simp add: parseDKIMParams_spec)

lemma lastWins_snoc: "lastWins (gs @ [g]) = (lastWins gs)(tagKey g \<mapsto> tagValue g)"
  by (simp add: lastWins_def)

lemma lastWins_Some:
  "lastWins gs k = Some v \<Longrightarrow>
     \<exists>pre g post. gs = pre @ g # post \<and> tagKey g = k \<and> tagValue g = v
                   \<and> (\<forall>h \<in> set post. tagKey h \<noteq> k)"
proof (induction gs rule: rev_induct)
  case Nil
  then show ?case by (simp add: lastWins_def)
next
  case (snoc g gs)
  show ?case
  proof (cases "tagKey g = k")
    case True
    with snoc.prems have "tagValue g = v" by (simp add: lastWins_snoc)
    with True have "gs @ [g] = gs @ g # [] \<and> tagKey g = k \<and> tagValue g = v
                    \<and> (\<forall>h \<in> set []. tagKey h \<noteq> k)"
      by simp
    then show ?thesis by blast
  next
    case False
    with snoc.prems have "lastWins gs k = Some v" by (simp add: lastWins_snoc)
    from snoc.IH [OF this] obtain pre g' post where
      "gs = pre @ g' # post" "tagKey g' = k" "tagValue g' = v" "\<forall>h \<in> set post. tagKey h \<noteq> k"
      by blast
    with False have "gs @ [g] = pre @ g' # (post @ [g]) \<and> tagKey g' = k \<and> tagValue g' = v
                     \<and> (\<forall>h \<in> set (post @ [g]). tagKey h \<noteq> k)"
      by auto
    then show ?thesis by blast
  qed
qed

text \<open>
  C9, as the code has it. The lexer fails exactly when some segment is bad (has no
  \<open>=\<close>, or has an empty key), and the error is the one of the first bad segment in
  the order of the record: \<open>MalformedTag\<close> when that segment has no \<open>=\<close>,
  \<open>EmptyTagName\<close> when its key is empty. Otherwise the result maps every key to the
  value of the last segment with that key.
\<close>

theorem lexer_first_error:
  "parseDKIMParams s =
     (case find badSegment (segments s) of
        Some g \<Rightarrow> Inl (segmentError g)
      | None \<Rightarrow> Inr (lastWins (segments s)))
   \<and> ((\<exists>e. parseDKIMParams s = Inl e) \<longleftrightarrow> (\<exists>g \<in> set (segments s). badSegment g))
   \<and> (\<forall>m k v. parseDKIMParams s = Inr m \<and> m k = Some v \<longrightarrow>
         (\<exists>pre g post. segments s = pre @ g # post \<and> tagKey g = k \<and> tagValue g = v
                        \<and> (\<forall>h \<in> set post. tagKey h \<noteq> k)))"
proof (intro conjI allI impI)
  show "parseDKIMParams s =
     (case find badSegment (segments s) of
        Some g \<Rightarrow> Inl (segmentError g)
      | None \<Rightarrow> Inr (lastWins (segments s)))"
    by (rule parseDKIMParams_spec)
  show "(\<exists>e. parseDKIMParams s = Inl e) \<longleftrightarrow> (\<exists>g \<in> set (segments s). badSegment g)"
  proof -
    have "(\<exists>g \<in> set (segments s). badSegment g) \<longleftrightarrow> find badSegment (segments s) \<noteq> None"
      by (auto simp: find_None_iff)
    then show ?thesis
      by (auto simp: parseDKIMParams_spec split: option.splits)
  qed
next
  fix m k v
  assume "parseDKIMParams s = Inr m \<and> m k = Some v"
  then have "lastWins (segments s) k = Some v"
    by (auto simp: parseDKIMParams_spec split: option.splits)
  then show "\<exists>pre g post. segments s = pre @ g # post \<and> tagKey g = k \<and> tagValue g = v
                        \<and> (\<forall>h \<in> set post. tagKey h \<noteq> k)"
    by (rule lastWins_Some)
qed

theorem lexer_first_error_witness:
  "parseDKIMParams ''p=AAA; p=BBB'' = Inr [''p'' \<mapsto> ''BBB'']
   \<and> parseDKIMParams ''v=DKIM1; k ; =x'' = Inl (MalformedTag ''k'')"
proof -
  have seg: "segments ''p=AAA; p=BBB'' = [''p=AAA'', ''p=BBB'']"
    by code_simp
  have ok: "find badSegment (segments ''p=AAA; p=BBB'') = None"
    by code_simp
  have kv: "tagKey ''p=AAA'' = ''p''" "tagKey ''p=BBB'' = ''p''" "tagValue ''p=BBB'' = ''BBB''"
    by code_simp+
  have bad: "find badSegment (segments ''v=DKIM1; k ; =x'') = Some ''k''"
    by code_simp
  have err: "segmentError ''k'' = MalformedTag ''k''"
    by code_simp
  have "parseDKIMParams ''p=AAA; p=BBB'' = Inr (lastWins (segments ''p=AAA; p=BBB''))"
    using lexer_first_error [of "''p=AAA; p=BBB''", THEN conjunct1]
    by (simp only: ok option.case)
  moreover have "lastWins (segments ''p=AAA; p=BBB'') = [''p'' \<mapsto> ''BBB'']"
    by (simp add: seg lastWins_def kv)
  moreover have "parseDKIMParams ''v=DKIM1; k ; =x'' = Inl (MalformedTag ''k'')"
    using lexer_first_error [of "''v=DKIM1; k ; =x''", THEN conjunct1]
    by (simp only: bad err option.case)
  ultimately show ?thesis by simp
qed

text \<open>
  The claim as the spec states it fails. In \<open>foo; =x\<close> a segment has an empty key,
  and the error is \<open>MalformedTag\<close>; in \<open>=x; foo\<close> a segment has no \<open>=\<close>, and the
  error is \<open>EmptyTagName\<close>.
\<close>

theorem lexer_error_kind_counterexample:
  "segments ''foo; =x'' = [''foo'', ''=x''] \<and> tagKey ''=x'' = []
   \<and> parseDKIMParams ''foo; =x'' = Inl (MalformedTag ''foo'')
   \<and> segments ''=x; foo'' = [''=x'', ''foo''] \<and> noEquals ''foo''
   \<and> parseDKIMParams ''=x; foo'' = Inl EmptyTagName"
proof -
  have "find badSegment (segments ''foo; =x'') = Some ''foo''"
    and "segmentError ''foo'' = MalformedTag ''foo''"
    and "find badSegment (segments ''=x; foo'') = Some ''=x''"
    and "segmentError ''=x'' = EmptyTagName"
    by code_simp+
  then have "parseDKIMParams ''foo; =x'' = Inl (MalformedTag ''foo'')"
    and "parseDKIMParams ''=x; foo'' = Inl EmptyTagName"
    by (simp_all add: parseDKIMParams_spec)
  moreover have "segments ''foo; =x'' = [''foo'', ''=x'']" and "tagKey ''=x'' = []"
    and "segments ''=x; foo'' = [''=x'', ''foo'']" and "noEquals ''foo''"
    by code_simp+
  ultimately show ?thesis by simp
qed

section \<open>ParseDKIM: the key block\<close>

lemma ParseDKIM_tags_keeps [simp]:
  "KeyType (ParseDKIM_tags params r) = KeyType r"
  "PublicKey (ParseDKIM_tags params r) = PublicKey r"
  "IsRevoked (ParseDKIM_tags params r) = IsRevoked r"
  by (simp_all add: ParseDKIM_tags_def Let_def split: option.splits)

lemma initialRecord_fields [simp]:
  "KeyType initialRecord = ''rsa''" "PublicKey initialRecord = []"
  "HashAlgorithms initialRecord = []" "Services initialRecord = []"
  "Flags initialRecord = []" "Notes initialRecord = []" "IsRevoked initialRecord = False"
  by (simp_all add: initialRecord_def)

lemma ParseDKIM_lexed:
  "parseDKIMParams s = Inr params \<Longrightarrow> ParseDKIM X s = ParseDKIM_params X params"
  by (simp add: ParseDKIM_def)

lemma ParseDKIM_params_key:
  "versionAccepted params \<Longrightarrow> params ''p'' = Some p \<Longrightarrow>
     ParseDKIM_params X params =
       (case ParseDKIM_key X params p initialRecord of
          Inl err \<Rightarrow> Inl err
        | Inr rec \<Rightarrow> Inr (ParseDKIM_tags params rec))"
  by (auto simp: ParseDKIM_params_def versionAccepted_def)

lemma ParseDKIM_key_step:
  assumes "parseDKIMParams s = Inr params" and "versionAccepted params"
    and "params ''p'' = Some p"
  shows "ParseDKIM X s =
     (case ParseDKIM_key X params p initialRecord of
        Inl err \<Rightarrow> Inl err
      | Inr rec \<Rightarrow> Inr (ParseDKIM_tags params rec))"
  by (simp add: ParseDKIM_lexed [OF assms(1)] ParseDKIM_params_key [OF assms(2,3)])

lemma ParseDKIM_key_rsa:
  assumes "p \<noteq> []" "DecodeString (ReplaceAll_space p) = Inr b"
    and "params ''k'' = None \<or> params ''k'' = Some ''rsa'' \<or> params ''k'' = Some []"
  shows "ParseDKIM_key X params p initialRecord =
     (case rsaDecoded X b of
        None \<Rightarrow> Inl InvalidKeyEncoding
      | Some OtherPublicKey \<Rightarrow> Inl KeyAlgorithmMismatch
      | Some (RSAPublicKey key) \<Rightarrow>
          if Size key * 8 < 1024 then Inl (KeyTooShort (Size key * 8))
          else Inr (initialRecord\<lparr>PublicKey := ReplaceAll_space p, KeyType := ''rsa''\<rparr>))"
  using assms
  by (auto simp: ParseDKIM_key_def rsaDecoded_def initialRecord_def Let_def
           split: option.splits crypto_PublicKey.splits)

lemma ParseDKIM_key_ed25519:
  assumes "p \<noteq> []" "DecodeString (ReplaceAll_space p) = Inr b"
    and "params ''k'' = Some ''ed25519''"
  shows "ParseDKIM_key X params p initialRecord =
     (if length b \<noteq> 32 then Inl (InvalidKeySize (length b))
      else Inr (initialRecord\<lparr>PublicKey := ReplaceAll_space p, KeyType := ''ed25519''\<rparr>))"
  using assms
  by (auto simp: ParseDKIM_key_def initialRecord_def Let_def PublicKeySize_def)

lemma ParseDKIM_key_other:
  assumes "p \<noteq> []" "DecodeString (ReplaceAll_space p) = Inr b"
    and "params ''k'' = Some k" "k \<noteq> ''rsa''" "k \<noteq> []" "k \<noteq> ''ed25519''"
  shows "ParseDKIM_key X params p initialRecord = Inl (UnsupportedKeyType k)"
  using assms
  by (auto simp: ParseDKIM_key_def initialRecord_def Let_def)

lemma ParseDKIM_key_undecodable:
  assumes "p \<noteq> []" "DecodeString (ReplaceAll_space p) = Inl e"
  shows "ParseDKIM_key X params p initialRecord = Inl InvalidBase64"
  using assms by (simp add: ParseDKIM_key_def Let_def)

lemma ParseDKIM_key_revoked:
  "ParseDKIM_key X params [] initialRecord = Inr (initialRecord\<lparr>IsRevoked := True, PublicKey := []\<rparr>)"
  by (simp add: ParseDKIM_key_def)

lemma ParseDKIM_key_cases:
  assumes "ParseDKIM_key X params p initialRecord = Inr r"
  shows "(p = [] \<and> IsRevoked r \<and> PublicKey r = [] \<and> KeyType r = ''rsa'')
       \<or> (p \<noteq> [] \<and> \<not> IsRevoked r \<and> PublicKey r = ReplaceAll_space p
           \<and> (\<exists>b. DecodeString (ReplaceAll_space p) = Inr b
                \<and> ((KeyType r = ''rsa'' \<and> params ''k'' \<noteq> Some ''ed25519''
                     \<and> (\<exists>key. rsaDecoded X b = Some (RSAPublicKey key) \<and> 1024 \<le> Size key * 8))
                    \<or> (KeyType r = ''ed25519'' \<and> params ''k'' = Some ''ed25519''
                        \<and> length b = 32))))"
proof (cases "p = []")
  case True
  with assms show ?thesis
    by (auto simp: ParseDKIM_key_revoked)
next
  case False
  show ?thesis
  proof (cases "DecodeString (ReplaceAll_space p)")
    case (Inl e)
    with assms False show ?thesis
      by (simp add: ParseDKIM_key_undecodable)
  next
    case (Inr b)
    consider "params ''k'' = None \<or> params ''k'' = Some ''rsa'' \<or> params ''k'' = Some []"
      | "params ''k'' = Some ''ed25519''"
      | k where "params ''k'' = Some k" "k \<noteq> ''rsa''" "k \<noteq> []" "k \<noteq> ''ed25519''"
      by (cases "params ''k''") auto
    then show ?thesis
    proof cases
      case 1
      with assms False Inr show ?thesis
        by (auto simp: ParseDKIM_key_rsa [of p b params X]
                 split: option.splits crypto_PublicKey.splits if_splits)
    next
      case 2
      with assms False Inr show ?thesis
        by (auto simp: ParseDKIM_key_ed25519 [of p b params X] split: if_splits)
    next
      case 3
      with assms False Inr show ?thesis
        by (simp add: ParseDKIM_key_other [of p b params _ X])
    qed
  qed
qed

lemma ParseDKIM_Inr:
  assumes "ParseDKIM X s = Inr rec"
  shows "\<exists>params p r. parseDKIMParams s = Inr params \<and> versionAccepted params
           \<and> params ''p'' = Some p \<and> ParseDKIM_key X params p initialRecord = Inr r
           \<and> rec = ParseDKIM_tags params r"
  using assms
  by (auto simp: ParseDKIM_def ParseDKIM_params_def versionAccepted_def
           split: sum.splits option.splits if_splits)

lemma bitlen_rsaKey: "1 < bits \<Longrightarrow> bitlen \<bar>N (rsaKey bits)\<bar> = int bits"
proof -
  assume bits: "1 < bits"
  then have "0 < bits - 1" by simp
  then have "(1::int) < 2 ^ (bits - 1)"
    by (intro one_less_power) simp_all
  then have "bitlen (2 ^ (bits - 1) + 1) = int (bits - 1) + 1"
    using bitlen_twopow_add_eq [of 1 "bits - 1"] by simp
  with bits show ?thesis
    by (simp add: rsaKey_def)
qed

lemma Size_rsaKey: "1 < bits \<Longrightarrow> Size (rsaKey bits) = (int bits + 7) div 8"
  by (simp add: Size_def bitlen_rsaKey)

lemma Size_threshold: "Size key * 8 < 1024 \<longleftrightarrow> \<bar>N key\<bar> < 2 ^ 1016"
proof -
  have "Size key * 8 < 1024 \<longleftrightarrow> bitlen \<bar>N key\<bar> \<le> 1016"
    unfolding Size_def by presburger
  also have "\<dots> \<longleftrightarrow> \<bar>N key\<bar> < 2 ^ 1016"
    using bitlen_le_iff_power [of "\<bar>N key\<bar>" 1016] by simp
  finally show ?thesis .
qed

lemma der1017_distinct: "der1017 \<noteq> [0, 0, 0]" "der1017 \<noteq> [0, 0, 1]"
  "der1017 \<noteq> [0, 0, 2]" "der1017 \<noteq> [0, 0, 3]"
  by (simp_all add: der1017_def)

text \<open>
  C2. A record that \<open>ParseDKIM\<close> returns is either revoked with an empty public key,
  or not revoked with a public key that decodes as standard base64 to bytes that are
  a key of the record's type: for rsa, bytes that one of the two decoders reads as an
  RSA key (the public-key-info decoder, or the raw RSA decoder when the first one
  fails); for ed25519, 32 bytes.
\<close>

theorem ParseDKIM_record_invariant:
  assumes "ParseDKIM X s = Inr rec"
  shows "(IsRevoked rec \<longrightarrow> PublicKey rec = [])
     \<and> (\<not> IsRevoked rec \<longrightarrow>
         (\<exists>b. DecodeString (PublicKey rec) = Inr b
            \<and> ((KeyType rec = ''rsa''
                 \<and> (\<exists>key. ParsePKIXPublicKey X b = Some (RSAPublicKey key)
                          \<or> (ParsePKIXPublicKey X b = None
                              \<and> ParsePKCS1PublicKey X b = Some key)))
                \<or> (KeyType rec = ''ed25519'' \<and> length b = 32))))"
proof -
  from ParseDKIM_Inr [OF assms] obtain params p r where
    key: "ParseDKIM_key X params p initialRecord = Inr r" and rec: "rec = ParseDKIM_tags params r"
    by blast
  have dec: "rsaDecoded X b = Some (RSAPublicKey key) \<Longrightarrow>
        ParsePKIXPublicKey X b = Some (RSAPublicKey key)
        \<or> (ParsePKIXPublicKey X b = None \<and> ParsePKCS1PublicKey X b = Some key)" for b key
    by (auto simp: rsaDecoded_def split: option.splits)
  from ParseDKIM_key_cases [OF key] show ?thesis
    unfolding rec by (auto dest: dec)
qed

theorem ParseDKIM_record_invariant_witness:
  "ParseDKIM exampleX509 ed25519Record =
     Inr \<lparr>KeyType = ''ed25519'', PublicKey = ed25519Text, HashAlgorithms = [], Services = [],
          Flags = [], Notes = [], IsRevoked = False\<rparr>
   \<and> (\<exists>b. DecodeString ed25519Text = Inr b \<and> length b = 32)
   \<and> ParseDKIM exampleX509 ''v=DKIM1; p='' =
     Inr \<lparr>KeyType = ''rsa'', PublicKey = [], HashAlgorithms = [], Services = [],
          Flags = [], Notes = [], IsRevoked = True\<rparr>"
proof -
  have ed: "ParseDKIM exampleX509 ed25519Record =
     Inr \<lparr>KeyType = ''ed25519'', PublicKey = ed25519Text, HashAlgorithms = [], Services = [],
          Flags = [], Notes = [], IsRevoked = False\<rparr>"
    by code_simp
  have rev: "ParseDKIM exampleX509 ''v=DKIM1; p='' =
     Inr \<lparr>KeyType = ''rsa'', PublicKey = [], HashAlgorithms = [], Services = [],
          Flags = [], Notes = [], IsRevoked = True\<rparr>"
    by code_simp
  show ?thesis
    using ParseDKIM_record_invariant [OF ed] ParseDKIM_record_invariant [OF rev] ed rev
    by simp
qed

text \<open>
  C3, at an input where the code and the claim part. The record \<open>rsa1017Record\<close>
  publishes an RSA key whose modulus has 1017 bits. \<open>Size\<close> rounds the modulus up to
  128 whole bytes, \<open>keyBits\<close> is 1024, and the record is accepted, for every pair of
  decoders that reads \<open>der1017\<close> as the key it encodes.
\<close>

theorem rsa_1017_bit_modulus_accepted:
  "ParsePKIXPublicKey X der1017 = None \<and> ParsePKCS1PublicKey X der1017 = Some (rsaKey 1017) \<longrightarrow>
     DecodeString rsa1017Text = Inr der1017
     \<and> bitlen \<bar>N (rsaKey 1017)\<bar> = 1017
     \<and> ParseDKIM X rsa1017Record =
         Inr \<lparr>KeyType = ''rsa'', PublicKey = rsa1017Text, HashAlgorithms = [], Services = [],
              Flags = [], Notes = [], IsRevoked = False\<rparr>"
proof (intro impI conjI)
  assume X: "ParsePKIXPublicKey X der1017 = None \<and> ParsePKCS1PublicKey X der1017 = Some (rsaKey 1017)"
  let ?params = "lastWins (segments rsa1017Record)"
  show dec: "DecodeString rsa1017Text = Inr der1017"
    by code_simp
  show "bitlen \<bar>N (rsaKey 1017)\<bar> = 1017"
    by (simp add: bitlen_rsaKey)
  have lex: "parseDKIMParams rsa1017Record = Inr ?params"
    by (rule parseDKIMParams_ok, code_simp)
  have v: "versionAccepted ?params" by code_simp
  have p: "?params ''p'' = Some rsa1017Text" by code_simp
  have ne: "rsa1017Text \<noteq> []" by code_simp
  have sp: "ReplaceAll_space rsa1017Text = rsa1017Text" by code_simp
  have k: "?params ''k'' = None \<or> ?params ''k'' = Some ''rsa'' \<or> ?params ''k'' = Some []"
    by code_simp
  have tags: "ParseDKIM_tags ?params (initialRecord\<lparr>PublicKey := rsa1017Text, KeyType := ''rsa''\<rparr>)
     = \<lparr>KeyType = ''rsa'', PublicKey = rsa1017Text, HashAlgorithms = [], Services = [],
              Flags = [], Notes = [], IsRevoked = False\<rparr>"
    by code_simp
  have key: "rsaDecoded X der1017 = Some (RSAPublicKey (rsaKey 1017))"
    using X by (simp add: rsaDecoded_def)
  have "ParseDKIM_key X ?params rsa1017Text initialRecord =
          Inr (initialRecord\<lparr>PublicKey := rsa1017Text, KeyType := ''rsa''\<rparr>)"
    using ParseDKIM_key_rsa [of rsa1017Text der1017 ?params X] ne dec k
    by (simp add: sp key Size_rsaKey)
  then show "ParseDKIM X rsa1017Record =
         Inr \<lparr>KeyType = ''rsa'', PublicKey = rsa1017Text, HashAlgorithms = [], Services = [],
              Flags = [], Notes = [], IsRevoked = False\<rparr>"
    by (simp add: ParseDKIM_key_step [OF lex v p] tags)
qed

theorem rsa_1017_bit_modulus_accepted_witness:
  "ParseDKIM exampleX509 rsa1017Record =
         Inr \<lparr>KeyType = ''rsa'', PublicKey = rsa1017Text, HashAlgorithms = [], Services = [],
              Flags = [], Notes = [], IsRevoked = False\<rparr>
   \<and> bitlen \<bar>N (rsaKey 1017)\<bar> = 1017"
  using rsa_1017_bit_modulus_accepted [of exampleX509]
  by (simp add: exampleX509_def der1017_distinct)

text \<open>
  C4, as the code has it. When the lexed tags pass the version check and hold an
  empty p tag, \<open>ParseDKIM\<close> succeeds for every pair of decoders and whatever the k tag
  holds: the record is revoked, its public key is empty, its key type is rsa, and the
  h, s, t and n tags are read as in every other record.
\<close>

theorem revoked_key_record:
  assumes "parseDKIMParams s = Inr params" and "versionAccepted params"
    and "params ''p'' = Some []"
  shows "ParseDKIM X s =
     Inr \<lparr>KeyType = ''rsa'', PublicKey = [],
          HashAlgorithms = (case params ''h'' of None \<Rightarrow> [] | Some h \<Rightarrow> parseTagList h),
          Services = (case params ''s'' of None \<Rightarrow> [] | Some sv \<Rightarrow> parseTagList sv),
          Flags = (case params ''t'' of None \<Rightarrow> [] | Some t \<Rightarrow> parseTagList t),
          Notes = (case params ''n'' of None \<Rightarrow> [] | Some n \<Rightarrow> n),
          IsRevoked = True\<rparr>"
proof -
  have "ParseDKIM X s =
     Inr (ParseDKIM_tags params (initialRecord\<lparr>IsRevoked := True, PublicKey := []\<rparr>))"
    by (simp add: ParseDKIM_lexed [OF assms(1)] ParseDKIM_params_key [OF assms(2,3)]
                  ParseDKIM_key_revoked)
  then show ?thesis
    by (simp add: ParseDKIM_tags_def initialRecord_def Let_def split: option.splits)
qed

theorem revoked_key_record_witness:
  "ParseDKIM exampleX509 ''v=DKIM1; p=; k=foo; h=sha256:sha1 : ; n=hello'' =
     Inr \<lparr>KeyType = ''rsa'', PublicKey = [], HashAlgorithms = [''sha256'', ''sha1''],
          Services = [], Flags = [], Notes = ''hello'', IsRevoked = True\<rparr>"
proof -
  let ?s = "''v=DKIM1; p=; k=foo; h=sha256:sha1 : ; n=hello''"
  have lex: "parseDKIMParams ?s = Inr (lastWins (segments ?s))"
    by (rule parseDKIMParams_ok, code_simp)
  have v: "versionAccepted (lastWins (segments ?s))" by code_simp
  have p: "lastWins (segments ?s) ''p'' = Some []" by code_simp
  have tags: "lastWins (segments ?s) ''h'' = Some ''sha256:sha1 :''"
    "lastWins (segments ?s) ''s'' = None" "lastWins (segments ?s) ''t'' = None"
    "lastWins (segments ?s) ''n'' = Some ''hello''"
    "parseTagList ''sha256:sha1 :'' = [''sha256'', ''sha1'']"
    by code_simp+
  show ?thesis
    using revoked_key_record [OF lex v p, of exampleX509]
    by (simp add: tags)
qed

text \<open>
  The claim as the spec states it fails: \<open>v=DKIM2; p=\<close> lexes to a map with an empty
  p tag, and \<open>ParseDKIM\<close> rejects it for its version.
\<close>

theorem revoked_wrong_version_counterexample:
  "map_sum id (\<lambda>params. params ''p'') (parseDKIMParams ''v=DKIM2; p='') = Inr (Some [])
   \<and> ParseDKIM exampleX509 ''v=DKIM2; p='' = Inl UnsupportedVersion"
  by code_simp

text \<open>
  C5, as the code has it. On lexed tags that pass the version check and hold a p tag:
  \<open>ParseDKIM\<close> fails with \<open>UnsupportedKeyType\<close> exactly when p is not empty, p decodes
  as base64 once its spaces are removed, and the k tag is present with a value other
  than rsa, ed25519 and the empty string. A record it returns has the key type
  ed25519 when p is not empty and the k tag is ed25519, and rsa in every other case
  (k absent, k empty, k rsa, or p empty, where the k tag is not read).
\<close>

theorem key_type_from_k_tag:
  assumes "parseDKIMParams s = Inr params" and "versionAccepted params"
    and "params ''p'' = Some p"
  shows
    "(ParseDKIM X s = Inl (UnsupportedKeyType k) \<longleftrightarrow>
        p \<noteq> [] \<and> (\<exists>b. DecodeString (ReplaceAll_space p) = Inr b)
        \<and> params ''k'' = Some k \<and> k \<notin> {''rsa'', ''ed25519'', []})
     \<and> (\<forall>rec. ParseDKIM X s = Inr rec \<longrightarrow>
          KeyType rec = (if p \<noteq> [] \<and> params ''k'' = Some ''ed25519'' then ''ed25519''
                         else ''rsa''))"
proof -
  have eq: "ParseDKIM X s =
       (case ParseDKIM_key X params p initialRecord of
          Inl err \<Rightarrow> Inl err
        | Inr rec \<Rightarrow> Inr (ParseDKIM_tags params rec))"
    by (simp add: ParseDKIM_lexed [OF assms(1)] ParseDKIM_params_key [OF assms(2,3)])
  have second: "KeyType rec = (if p \<noteq> [] \<and> params ''k'' = Some ''ed25519'' then ''ed25519''
                         else ''rsa'')" if "ParseDKIM X s = Inr rec" for rec
  proof -
    from that obtain r where r: "ParseDKIM_key X params p initialRecord = Inr r"
      and rec: "rec = ParseDKIM_tags params r"
      by (auto simp: eq split: sum.splits)
    from ParseDKIM_key_cases [OF r] show ?thesis
      unfolding rec by auto
  qed
  have first: "ParseDKIM X s = Inl (UnsupportedKeyType k) \<longleftrightarrow>
        p \<noteq> [] \<and> (\<exists>b. DecodeString (ReplaceAll_space p) = Inr b)
        \<and> params ''k'' = Some k \<and> k \<notin> {''rsa'', ''ed25519'', []}"
  proof (cases "p = []")
    case True
    then show ?thesis by (simp add: eq ParseDKIM_key_revoked)
  next
    case False
    show ?thesis
    proof (cases "DecodeString (ReplaceAll_space p)")
      case (Inl e)
      with False show ?thesis by (simp add: eq ParseDKIM_key_undecodable)
    next
      case (Inr b)
      consider "params ''k'' = None \<or> params ''k'' = Some ''rsa'' \<or> params ''k'' = Some []"
        | "params ''k'' = Some ''ed25519''"
        | k' where "params ''k'' = Some k'" "k' \<noteq> ''rsa''" "k' \<noteq> []" "k' \<noteq> ''ed25519''"
        by (cases "params ''k''") auto
      then show ?thesis
      proof cases
        case 1
        with False Inr show ?thesis
          by (auto simp: eq ParseDKIM_key_rsa [of p b params X]
                   split: option.splits crypto_PublicKey.splits)
      next
        case 2
        with False Inr show ?thesis
          by (auto simp: eq ParseDKIM_key_ed25519 [of p b params X])
      next
        case 3
        with False Inr show ?thesis
          by (auto simp: eq ParseDKIM_key_other [of p b params _ X])
      qed
    qed
  qed
  from first second show ?thesis by blast
qed

theorem key_type_from_k_tag_witness:
  "ParseDKIM exampleX509 ''v=DKIM1; k=dsa; p=AAAA'' = Inl (UnsupportedKeyType ''dsa'')"
proof -
  let ?s = "''v=DKIM1; k=dsa; p=AAAA''"
  have lex: "parseDKIMParams ?s = Inr (lastWins (segments ?s))"
    by (rule parseDKIMParams_ok, code_simp)
  have v: "versionAccepted (lastWins (segments ?s))" by code_simp
  have p: "lastWins (segments ?s) ''p'' = Some ''AAAA''" by code_simp
  have k: "lastWins (segments ?s) ''k'' = Some ''dsa''" by code_simp
  have dec: "DecodeString (ReplaceAll_space ''AAAA'') = Inr [0, 0, 0]" by code_simp
  show ?thesis
    using key_type_from_k_tag [OF lex v p, of exampleX509 "''dsa''"]
    by (simp add: k dec)
qed

text \<open>
  The claim as the spec states it fails in three ways. In \<open>v=DKIM1; p=; k=foo\<close> the
  k tag is present with the value foo, and \<open>ParseDKIM\<close> succeeds with key type rsa:
  the key is revoked and the k tag is not read. In \<open>k=; p=AAAF\<close> the k tag is
  present with the empty value, and the rsa branch is taken (its decoders reject the
  three bytes). In \<open>k=foo; p=!!!\<close> the p value does not decode, and the error is
  \<open>InvalidBase64\<close>.
\<close>

theorem k_tag_ignored_counterexample:
  "map_sum id (\<lambda>params. params ''k'') (parseDKIMParams ''v=DKIM1; p=; k=foo'') = Inr (Some ''foo'')
   \<and> ParseDKIM exampleX509 ''v=DKIM1; p=; k=foo'' =
       Inr \<lparr>KeyType = ''rsa'', PublicKey = [], HashAlgorithms = [], Services = [],
            Flags = [], Notes = [], IsRevoked = True\<rparr>
   \<and> map_sum id (\<lambda>params. params ''k'') (parseDKIMParams ''k=; p=AAAF'') = Inr (Some [])
   \<and> ParseDKIM exampleX509 ''k=; p=AAAF'' = Inl InvalidKeyEncoding
   \<and> map_sum id (\<lambda>params. params ''k'') (parseDKIMParams ''k=foo; p=!!!'') = Inr (Some ''foo'')
   \<and> ParseDKIM exampleX509 ''k=foo; p=!!!'' = Inl InvalidBase64"
  by code_simp

text \<open>
  C7. On lexed tags that pass the version check, with a non-empty p tag that decodes
  to the bytes \<open>b\<close> and a key type of rsa (k absent, rsa or empty): if both decoders
  fail on \<open>b\<close> the result is \<open>InvalidKeyEncoding\<close>; if the public-key-info decoder
  returns a key that is not RSA the result is \<open>KeyAlgorithmMismatch\<close>; if it returns
  an RSA key, or fails and the raw RSA decoder returns a key, the result is that of
  the size check on that key. The raw RSA decoder counts only when the first one
  fails.
\<close>

theorem rsa_key_decoding:
  assumes "parseDKIMParams s = Inr params" and "versionAccepted params"
    and "params ''p'' = Some p" and "p \<noteq> []"
    and "DecodeString (ReplaceAll_space p) = Inr b"
    and "params ''k'' = None \<or> params ''k'' = Some ''rsa'' \<or> params ''k'' = Some []"
  shows
    "(ParsePKIXPublicKey X b = None \<and> ParsePKCS1PublicKey X b = None \<longrightarrow>
        ParseDKIM X s = Inl InvalidKeyEncoding)
     \<and> (ParsePKIXPublicKey X b = Some OtherPublicKey \<longrightarrow>
        ParseDKIM X s = Inl KeyAlgorithmMismatch)
     \<and> (\<forall>key. ParsePKIXPublicKey X b = Some (RSAPublicKey key)
               \<or> (ParsePKIXPublicKey X b = None \<and> ParsePKCS1PublicKey X b = Some key) \<longrightarrow>
          ParseDKIM X s =
            (if Size key * 8 < 1024 then Inl (KeyTooShort (Size key * 8))
             else Inr (ParseDKIM_tags params
                         (initialRecord\<lparr>PublicKey := ReplaceAll_space p, KeyType := ''rsa''\<rparr>))))"
proof -
  have "ParseDKIM X s =
     (case ParseDKIM_key X params p initialRecord of
        Inl err \<Rightarrow> Inl err
      | Inr rec \<Rightarrow> Inr (ParseDKIM_tags params rec))"
    by (simp add: ParseDKIM_lexed [OF assms(1)] ParseDKIM_params_key [OF assms(2,3)])
  then show ?thesis
    by (auto simp: ParseDKIM_key_rsa [of p b params X, OF assms(4,5,6)] rsaDecoded_def)
qed

theorem rsa_key_decoding_witness:
  "ParseDKIM exampleX509 ''v=DKIM1; p=AAAA'' = Inl KeyAlgorithmMismatch
   \<and> ParseDKIM exampleX509 ''v=DKIM1; k=rsa; p=AAAF'' = Inl InvalidKeyEncoding
   \<and> ParseDKIM exampleX509 ''k=; p=AA AC; n=raw key'' =
       Inr \<lparr>KeyType = ''rsa'', PublicKey = ''AAAC'', HashAlgorithms = [], Services = [],
            Flags = [], Notes = ''raw key'', IsRevoked = False\<rparr>
   \<and> ParseDKIM exampleX509 ''p=AAAD'' = Inl (KeyTooShort 512)"
proof -
  let ?s1 = "''v=DKIM1; p=AAAA''" and ?s2 = "''v=DKIM1; k=rsa; p=AAAF''"
  let ?s3 = "''k=; p=AA AC; n=raw key''" and ?s4 = "''p=AAAD''"
  have lex: "parseDKIMParams ?s1 = Inr (lastWins (segments ?s1))"
    "parseDKIMParams ?s2 = Inr (lastWins (segments ?s2))"
    "parseDKIMParams ?s3 = Inr (lastWins (segments ?s3))"
    "parseDKIMParams ?s4 = Inr (lastWins (segments ?s4))"
    by (rule parseDKIMParams_ok, code_simp)+
  have v: "versionAccepted (lastWins (segments ?s1))" "versionAccepted (lastWins (segments ?s2))"
    "versionAccepted (lastWins (segments ?s3))" "versionAccepted (lastWins (segments ?s4))"
    by code_simp+
  have p: "lastWins (segments ?s1) ''p'' = Some ''AAAA''"
    "lastWins (segments ?s2) ''p'' = Some ''AAAF''"
    "lastWins (segments ?s3) ''p'' = Some ''AA AC''"
    "lastWins (segments ?s4) ''p'' = Some ''AAAD''"
    by code_simp+
  have dec: "DecodeString (ReplaceAll_space ''AAAA'') = Inr [0, 0, 0]"
    "DecodeString (ReplaceAll_space ''AAAF'') = Inr [0, 0, 5]"
    "DecodeString (ReplaceAll_space ''AA AC'') = Inr [0, 0, 2]"
    "DecodeString (ReplaceAll_space ''AAAD'') = Inr [0, 0, 3]"
    by code_simp+
  have k: "lastWins (segments ?s1) ''k'' = None" "lastWins (segments ?s2) ''k'' = Some ''rsa''"
    "lastWins (segments ?s3) ''k'' = Some []" "lastWins (segments ?s4) ''k'' = None"
    by code_simp+
  have size: "Size (rsaKey 2048) = 256" "Size (rsaKey 512) = 64"
    by (simp_all add: Size_rsaKey)
  have tags: "ParseDKIM_tags (lastWins (segments ?s3))
                (initialRecord\<lparr>PublicKey := ReplaceAll_space ''AA AC'', KeyType := ''rsa''\<rparr>)
              = \<lparr>KeyType = ''rsa'', PublicKey = ''AAAC'', HashAlgorithms = [], Services = [],
                 Flags = [], Notes = ''raw key'', IsRevoked = False\<rparr>"
    by code_simp
  have d5: "[0, 0, 5] \<noteq> der1017" "[0, 0, 2] \<noteq> der1017" "[0, 0, 3] \<noteq> der1017"
    by (simp_all add: der1017_def)
  show ?thesis
    using rsa_key_decoding [OF lex(1) v(1) p(1) _ dec(1), of exampleX509]
          rsa_key_decoding [OF lex(2) v(2) p(2) _ dec(2), of exampleX509]
          rsa_key_decoding [OF lex(3) v(3) p(3) _ dec(3), of exampleX509]
          rsa_key_decoding [OF lex(4) v(4) p(4) _ dec(4), of exampleX509]
    by (simp add: k exampleX509_def size tags d5)
qed

text \<open>
  C8. On lexed tags that pass the version check, with a non-empty p tag that decodes
  to the bytes \<open>b\<close> and the k tag ed25519: \<open>ParseDKIM\<close> succeeds, with key type
  ed25519, exactly when \<open>b\<close> has 32 bytes, and fails with \<open>InvalidKeySize\<close> otherwise.
\<close>

theorem ed25519_key_size:
  assumes "parseDKIMParams s = Inr params" and "versionAccepted params"
    and "params ''p'' = Some p" and "p \<noteq> []"
    and "DecodeString (ReplaceAll_space p) = Inr b"
    and "params ''k'' = Some ''ed25519''"
  shows
    "(length b = 32 \<longrightarrow>
        ParseDKIM X s = Inr (ParseDKIM_tags params
          (initialRecord\<lparr>PublicKey := ReplaceAll_space p, KeyType := ''ed25519''\<rparr>)))
     \<and> (length b \<noteq> 32 \<longrightarrow> ParseDKIM X s = Inl (InvalidKeySize (length b)))
     \<and> ((\<exists>rec. ParseDKIM X s = Inr rec) \<longleftrightarrow> length b = 32)"
proof -
  have "ParseDKIM X s =
     (case ParseDKIM_key X params p initialRecord of
        Inl err \<Rightarrow> Inl err
      | Inr rec \<Rightarrow> Inr (ParseDKIM_tags params rec))"
    by (simp add: ParseDKIM_lexed [OF assms(1)] ParseDKIM_params_key [OF assms(2,3)])
  then show ?thesis
    by (auto simp: ParseDKIM_key_ed25519 [of p b params X, OF assms(4,5,6)])
qed

theorem ed25519_key_size_witness:
  "ParseDKIM exampleX509 ed25519Record =
     Inr \<lparr>KeyType = ''ed25519'', PublicKey = ed25519Text, HashAlgorithms = [], Services = [],
          Flags = [], Notes = [], IsRevoked = False\<rparr>
   \<and> ParseDKIM exampleX509 ''k=ed25519; p=AAAA'' = Inl (InvalidKeySize 3)"
proof -
  let ?s = "''k=ed25519; p=AAAA''"
  let ?params = "lastWins (segments ed25519Record)"
  have lex: "parseDKIMParams ed25519Record = Inr ?params"
    "parseDKIMParams ?s = Inr (lastWins (segments ?s))"
    by (rule parseDKIMParams_ok, code_simp)+
  have v: "versionAccepted ?params" "versionAccepted (lastWins (segments ?s))"
    by code_simp+
  have p: "?params ''p'' = Some ed25519Text" "lastWins (segments ?s) ''p'' = Some ''AAAA''"
    by code_simp+
  have ne: "ed25519Text \<noteq> []" by code_simp
  have k: "?params ''k'' = Some ''ed25519''" "lastWins (segments ?s) ''k'' = Some ''ed25519''"
    by code_simp+
  have dec: "DecodeString (ReplaceAll_space ed25519Text) = Inr (replicate 32 0)"
    "DecodeString (ReplaceAll_space ''AAAA'') = Inr [0, 0, 0]"
    by code_simp+
  have tags: "ParseDKIM_tags ?params
                (initialRecord\<lparr>PublicKey := ReplaceAll_space ed25519Text, KeyType := ''ed25519''\<rparr>)
     = \<lparr>KeyType = ''ed25519'', PublicKey = ed25519Text, HashAlgorithms = [], Services = [],
          Flags = [], Notes = [], IsRevoked = False\<rparr>"
    by code_simp
  show ?thesis
    using ed25519_key_size [OF lex(1) v(1) p(1) ne dec(1) k(1), of exampleX509]
          ed25519_key_size [OF lex(2) v(2) p(2) _ dec(2) k(2), of exampleX509]
    by (simp add: tags)
qed

text \<open>
  C10, at inputs where the code and the claim part. A tab inside the p value is
  white space, but it is not removed before decoding: the record is rejected with
  \<open>InvalidBase64\<close>, although the value with its white space removed decodes to 32
  bytes. A line feed inside the p value is not removed either; the decoder ignores it,
  and the record's public key still holds it.
\<close>

theorem tab_inside_key_rejected:
  "ParseDKIM X tabbedRecord = Inl InvalidBase64
   \<and> DecodeString (filter (\<lambda>c. c \<notin> {CHR 0x09, CHR 0x0A, CHR 0x0D, CHR 0x20}) tabbedText)
       = Inr (replicate 32 0)
   \<and> ParseDKIM X newlineRecord =
       Inr \<lparr>KeyType = ''ed25519'', PublicKey = newlineText, HashAlgorithms = [], Services = [],
            Flags = [], Notes = [], IsRevoked = False\<rparr>"
  by code_simp

theorem tab_inside_key_rejected_witness:
  "ParseDKIM exampleX509 tabbedRecord = Inl InvalidBase64"
  using tab_inside_key_rejected [of exampleX509] by simp

section \<open>Further properties of the key block\<close>

text \<open>
  The size check of the rsa branch, in terms of the modulus. With the hypotheses of
  C7 and an RSA key returned by the decoders, \<open>ParseDKIM\<close> fails with \<open>KeyTooShort\<close>
  exactly when the modulus is below \<open>2^1016\<close>, that is when it fits in 127 bytes, and
  succeeds with key type rsa exactly when the modulus is at least \<open>2^1016\<close>.
\<close>

theorem rsa_key_too_short_threshold:
  assumes "parseDKIMParams s = Inr params" and "versionAccepted params"
    and "params ''p'' = Some p" and "p \<noteq> []"
    and "DecodeString (ReplaceAll_space p) = Inr b"
    and "params ''k'' = None \<or> params ''k'' = Some ''rsa'' \<or> params ''k'' = Some []"
    and "ParsePKIXPublicKey X b = Some (RSAPublicKey key)
         \<or> (ParsePKIXPublicKey X b = None \<and> ParsePKCS1PublicKey X b = Some key)"
  shows "(ParseDKIM X s = Inl (KeyTooShort (Size key * 8)) \<longleftrightarrow> \<bar>N key\<bar> < 2 ^ 1016)
     \<and> ((\<exists>rec. ParseDKIM X s = Inr rec \<and> KeyType rec = ''rsa'') \<longleftrightarrow> 2 ^ 1016 \<le> \<bar>N key\<bar>)"
proof -
  have key: "rsaDecoded X b = Some (RSAPublicKey key)"
    using assms(7) by (auto simp: rsaDecoded_def)
  have "ParseDKIM X s =
      (if Size key * 8 < 1024 then Inl (KeyTooShort (Size key * 8))
       else Inr (ParseDKIM_tags params
                   (initialRecord\<lparr>PublicKey := ReplaceAll_space p, KeyType := ''rsa''\<rparr>)))"
    by (simp add: ParseDKIM_key_step [OF assms(1,2,3)]
                  ParseDKIM_key_rsa [of p b params X, OF assms(4,5,6)] key)
  then show ?thesis
    using Size_threshold [of key] by auto
qed

theorem rsa_key_too_short_threshold_witness:
  "ParseDKIM exampleX509 ''p=AAAD'' = Inl (KeyTooShort 512)"
proof -
  let ?s = "''p=AAAD''"
  have lex: "parseDKIMParams ?s = Inr (lastWins (segments ?s))"
    by (rule parseDKIMParams_ok, code_simp)
  have v: "versionAccepted (lastWins (segments ?s))" by code_simp
  have p: "lastWins (segments ?s) ''p'' = Some ''AAAD''" by code_simp
  have dec: "DecodeString (ReplaceAll_space ''AAAD'') = Inr [0, 0, 3]" by code_simp
  have k: "lastWins (segments ?s) ''k'' = None" by code_simp
  have key: "ParsePKIXPublicKey exampleX509 [0, 0, 3] = None
             \<and> ParsePKCS1PublicKey exampleX509 [0, 0, 3] = Some (rsaKey 512)"
    by (simp add: exampleX509_def)
  have size: "Size (rsaKey 512) = 64"
    by (simp add: Size_rsaKey)
  then have small: "\<bar>N (rsaKey 512)\<bar> < 2 ^ 1016"
    using Size_threshold [of "rsaKey 512"] by simp
  show ?thesis
    using rsa_key_too_short_threshold [OF lex v p _ dec, of exampleX509 "rsaKey 512"] k key small
    by (simp add: size)
qed

text \<open>
  The base64 step. On lexed tags that pass the version check and hold a non-empty p
  tag, \<open>ParseDKIM\<close> removes the bytes 0x20 from the value, and nothing else, before
  decoding: it fails with \<open>InvalidBase64\<close> exactly when the value without its spaces
  does not decode, and a record it returns holds the value without its spaces as
  public key.
\<close>

theorem base64_step:
  assumes "parseDKIMParams s = Inr params" and "versionAccepted params"
    and "params ''p'' = Some p" and "p \<noteq> []"
  shows "(ParseDKIM X s = Inl InvalidBase64 \<longleftrightarrow> (\<exists>e. DecodeString (ReplaceAll_space p) = Inl e))
     \<and> (\<forall>rec. ParseDKIM X s = Inr rec \<longrightarrow> PublicKey rec = ReplaceAll_space p)"
proof -
  note step = ParseDKIM_key_step [OF assms(1,2,3)]
  have second: "PublicKey rec = ReplaceAll_space p" if "ParseDKIM X s = Inr rec" for rec
  proof -
    from that obtain r where r: "ParseDKIM_key X params p initialRecord = Inr r"
      and rec: "rec = ParseDKIM_tags params r"
      by (auto simp: step split: sum.splits)
    from ParseDKIM_key_cases [OF r] assms(4) show ?thesis
      unfolding rec by auto
  qed
  have first: "ParseDKIM X s = Inl InvalidBase64 \<longleftrightarrow> (\<exists>e. DecodeString (ReplaceAll_space p) = Inl e)"
  proof (cases "DecodeString (ReplaceAll_space p)")
    case (Inl e)
    with assms(4) show ?thesis by (simp add: step ParseDKIM_key_undecodable)
  next
    case (Inr b)
    consider "params ''k'' = None \<or> params ''k'' = Some ''rsa'' \<or> params ''k'' = Some []"
      | "params ''k'' = Some ''ed25519''"
      | k' where "params ''k'' = Some k'" "k' \<noteq> ''rsa''" "k' \<noteq> []" "k' \<noteq> ''ed25519''"
      by (cases "params ''k''") auto
    then show ?thesis
    proof cases
      case 1
      with assms(4) Inr show ?thesis
        by (auto simp: step ParseDKIM_key_rsa [of p b params X]
                 split: option.splits crypto_PublicKey.splits)
    next
      case 2
      with assms(4) Inr show ?thesis
        by (auto simp: step ParseDKIM_key_ed25519 [of p b params X])
    next
      case 3
      with assms(4) Inr show ?thesis
        by (auto simp: step ParseDKIM_key_other [of p b params _ X])
    qed
  qed
  from first second show ?thesis by blast
qed

theorem base64_step_witness:
  "ParseDKIM exampleX509 ''v=DKIM1; p=not-valid-base64!!!'' = Inl InvalidBase64"
proof -
  let ?s = "''v=DKIM1; p=not-valid-base64!!!''"
  have lex: "parseDKIMParams ?s = Inr (lastWins (segments ?s))"
    by (rule parseDKIMParams_ok, code_simp)
  have v: "versionAccepted (lastWins (segments ?s))" by code_simp
  have p: "lastWins (segments ?s) ''p'' = Some ''not-valid-base64!!!''" by code_simp
  have dec: "DecodeString (ReplaceAll_space ''not-valid-base64!!!'') = Inl CorruptInputError"
    by code_simp
  show ?thesis
    using base64_step [OF lex v p, of exampleX509]
    by (simp add: dec)
qed

end
